theory Spec2Isabelle
  imports Complex_Main "HOL-Library.Multiset"
begin

section \<open>Data model (types.ts)\<close>

text \<open>
  A JavaScript number that holds a time is modelled as an exact \<^typ>\<open>real\<close>: sums,
  products and quotients are the mathematical ones, IEEE rounding is not modelled.
  The special values \<open>NaN\<close> and \<open>Infinity\<close> appear only where the source tests for
  them (the duration of the video). Three fields are renamed, since their names are
  taken: \<open>id\<close> of a frame is \<open>frame_id\<close>, \<open>title\<close> of a step is \<open>step_title\<close>, and
  \<open>steps\<close> of a handout is \<open>handout_steps\<close>.
\<close>

record CapturedFrame =
  frame_id :: string
  dataUrl :: string
  timestamp :: real
  originalTimeFormatted :: string

record HandoutStep =
  stepNumber :: int
  step_title :: string
  description :: string
  tips :: "string option"


section \<open>Frame capture (FrameCapturer)\<close>

subsection \<open>formatTime\<close>

text \<open>Decimal rendering of an integer, as template interpolation and \<open>toString\<close> give it.\<close>

function show_nat :: "nat \<Rightarrow> string" where
  "show_nat n =
     (if n < 10 then [''0123456789'' ! n]
      else show_nat (n div 10) @ [''0123456789'' ! (n mod 10)])"
  by pat_completeness auto
termination
  by (relation "measure id") auto

declare show_nat.simps [simp del]

definition show_int :: "int \<Rightarrow> string" where
  "show_int k = (if k < 0 then ''-'' @ show_nat (nat (- k)) else show_nat (nat k))"

text \<open>\<open>padStart(2, '0')\<close>.\<close>

definition padStart2 :: "string \<Rightarrow> string" where
  "padStart2 s = replicate (2 - length s) CHR ''0'' @ s"

text \<open>The remainder operator \<open>%\<close> of JavaScript truncates the quotient towards zero.\<close>

definition js_rem :: "real \<Rightarrow> real \<Rightarrow> real" where
  "js_rem x y =
     x - y * of_int (if 0 \<le> x / y then \<lfloor>x / y\<rfloor> else \<lceil>x / y\<rceil>)"

definition formatTime :: "real \<Rightarrow> string" where
  "formatTime seconds =
     (let m = \<lfloor>seconds / 60\<rfloor>;
          s = \<lfloor>js_rem seconds 60\<rfloor>
      in show_int m @ '':'' @ padStart2 (show_int s))"

subsection \<open>createFrameFromVideo\<close>

text \<open>
  What \<open>createFrameFromVideo\<close> reads from the browser at the moment of a capture:
  whether \<open>canvasRef.current\<close> and the 2d context exist, what \<open>drawImage\<close> followed by
  \<open>toDataURL\<close> does (\<open>Inl\<close> the message of the exception they raise, \<open>Inr\<close> the data
  URL), the position \<open>video.currentTime\<close>, and the identifier drawn from
  \<open>Math.random\<close>.
\<close>

record capture_env =
  canvas :: bool
  context2d :: bool
  export :: "string + string"
  currentTime :: real
  random_id :: string

text \<open>
  The result is \<open>Inl msg\<close> when the function throws \<open>Error(msg)\<close>, \<open>Inr None\<close> when it
  returns \<open>null\<close> and \<open>Inr (Some frame)\<close> when it returns a frame.
\<close>

definition createFrameFromVideo :: "capture_env \<Rightarrow> string + CapturedFrame option" where
  "createFrameFromVideo c =
     (if canvas c then
        (if context2d c then
           (case export c of
              Inl msg \<Rightarrow> Inl (''Canvas export failed (Security/CORS): '' @ msg)
            | Inr url \<Rightarrow>
                Inr (Some \<lparr>frame_id = random_id c, dataUrl = url,
                           timestamp = currentTime c,
                           originalTimeFormatted = formatTime (currentTime c)\<rparr>))
         else Inr None)
      else Inr None)"

subsection \<open>Component state\<close>

text \<open>
  The texts shown to the user are modelled by their template and the values
  interpolated into it; the messages of exceptions are strings.
\<close>

datatype log_msg =
    ProcessStarted
  | DurationLog real
  | SkippedFrame real
  | AnalyzingFrames nat
  | SelectedFrames nat
  | ErrorLog string

datatype status_msg =
    NoStatus
  | Initializing
  | ScanningFrame nat nat
  | AIAnalyzing

datatype alert_msg =
    CaptureAlert string
  | SystemErrorAlert
  | VideoNotReadyAlert
  | DurationAlert
  | AutoSelectFailedAlert string

text \<open>
  The React state of \<open>FrameCapturer\<close> (\<open>frames\<close>, \<open>isPlaying\<close>, \<open>isAnalyzing\<close>,
  \<open>statusMessage\<close>, \<open>debugLogs\<close>) and four traces of what the component did to the
  outside: the lines written by \<open>console.log\<close> in \<open>addLog\<close>, the alerts raised, the
  positions assigned to \<open>video.currentTime\<close>, and the argument of every call of
  \<open>filterBestFrames\<close>.
\<close>

record capturer =
  frames :: "CapturedFrame list"
  isPlaying :: bool
  isAnalyzing :: bool
  statusMessage :: status_msg
  debugLogs :: "log_msg list"
  console_log :: "log_msg list"
  alerts :: "alert_msg list"
  seeks :: "real list"
  ranking_calls :: "CapturedFrame list list"

text \<open>\<open>prev.slice(-3)\<close>: the last three entries, or all of them when there are fewer.\<close>

definition slice_last3 :: "'a list \<Rightarrow> 'a list" where
  "slice_last3 xs = drop (length xs - 3) xs"

definition addLog :: "log_msg \<Rightarrow> capturer \<Rightarrow> capturer" where
  "addLog msg s =
     s\<lparr>console_log := console_log s @ [msg],
       debugLogs := slice_last3 (debugLogs s) @ [msg]\<rparr>"

definition alert :: "alert_msg \<Rightarrow> capturer \<Rightarrow> capturer" where
  "alert msg s = s\<lparr>alerts := alerts s @ [msg]\<rparr>"

subsection \<open>Manual capture and removal\<close>

text \<open>
  \<open>captureFrame\<close>: \<open>video\<close> tells whether \<open>videoRef.current\<close> is set, \<open>c\<close> is what the
  browser offers at the click.
\<close>

definition captureFrame :: "bool \<Rightarrow> capture_env \<Rightarrow> capturer \<Rightarrow> capturer" where
  "captureFrame video c s =
     (if video then
        (case createFrameFromVideo c of
           Inr (Some frame) \<Rightarrow> s\<lparr>frames := frames s @ [frame]\<rparr>
         | Inr None \<Rightarrow> s
         | Inl msg \<Rightarrow> alert (CaptureAlert msg) s)
      else s)"

definition removeFrame :: "string \<Rightarrow> capturer \<Rightarrow> capturer" where
  "removeFrame i s = s\<lparr>frames := filter (\<lambda>f. frame_id f \<noteq> i) (frames s)\<rparr>"

section \<open>The Gemini service (geminiService.ts)\<close>

subsection \<open>Requests\<close>

definition split_on :: "char \<Rightarrow> string \<Rightarrow> string list" where
  "split_on c s =
     foldr (\<lambda>x acc. if x = c then [] # acc else (x # hd acc) # tl acc) s [[]]"

text \<open>
  \<open>dataUrl.split(',')[1]\<close>: the text between the first and the second comma,
  \<open>undefined\<close> (\<open>None\<close>) when the URL has no comma.
\<close>

definition processBase64Image :: "string \<Rightarrow> string option" where
  "processBase64Image url =
     (case split_on CHR '','' url of
        a # b # rest \<Rightarrow> Some b
      | _ \<Rightarrow> None)"

datatype schema =
    StringT
  | IntegerT
  | ArrayT schema
  | ObjectT "(string \<times> schema) list" "string list"

definition HANDOUT_SCHEMA :: schema where
  "HANDOUT_SCHEMA =
     ObjectT
       [(''title'', StringT),
        (''summary'', StringT),
        (''steps'',
           ArrayT (ObjectT
             [(''stepNumber'', IntegerT),
              (''title'', StringT),
              (''description'', StringT),
              (''tips'', StringT)]
             [''stepNumber'', ''title'', ''description'']))]
       [''title'', ''summary'', ''steps'']"

definition SELECTION_SCHEMA :: schema where
  "SELECTION_SCHEMA =
     ObjectT [(''selectedIndices'', ArrayT IntegerT)] [''selectedIndices'']"

text \<open>
  The two instruction texts are fixed but for the number of frames interpolated into
  them, which is what the constructors keep.
\<close>

datatype part =
    InlineData string "string option"
  | HandoutPrompt nat
  | SelectionPrompt nat

record request =
  model :: string
  parts :: "part list"
  responseMimeType :: string
  responseSchema :: schema
  systemInstruction :: "string option"

definition image_part :: "CapturedFrame \<Rightarrow> part" where
  "image_part frame = InlineData ''image/jpeg'' (processBase64Image (dataUrl frame))"

subsection \<open>filterBestFrames\<close>

text \<open>
  \<open>ai.models.generateContent\<close> is the external capability: \<open>Inl msg\<close> when the call
  fails (the construction of the client counts as part of the call), otherwise the
  \<open>text\<close> of the response, \<open>None\<close> for \<open>undefined\<close>.
  The payload of a ranking response is read at the type the source asserts for it,
  \<open>{ selectedIndices: number[] }\<close> with the integers the schema asks for;
  \<open>parse_selection\<close> is \<open>JSON.parse\<close> at that type, \<open>Inl\<close> when it throws.
\<close>

record ranking_service =
  rank_generateContent :: "request \<Rightarrow> string + string option"
  parse_selection :: "string \<Rightarrow> string + int list"

definition selection_request :: "CapturedFrame list \<Rightarrow> request" where
  "selection_request fs =
     \<lparr>model = ''gemini-2.5-flash'',
      parts = map image_part fs @ [SelectionPrompt (length fs)],
      responseMimeType = ''application/json'',
      responseSchema = SELECTION_SCHEMA,
      systemInstruction = None\<rparr>"

text \<open>The \<open>catch\<close> block logs the error and throws it again: the error is the result.\<close>

definition filterBestFrames :: "ranking_service \<Rightarrow> CapturedFrame list \<Rightarrow> string + int list" where
  "filterBestFrames svc fs =
     (case rank_generateContent svc (selection_request fs) of
        Inl msg \<Rightarrow> Inl msg
      | Inr None \<Rightarrow> Inl ''No response from Gemini''
      | Inr (Some text) \<Rightarrow>
          (if text = [] then Inl ''No response from Gemini''
           else parse_selection svc text))"

section \<open>Auto-select (FrameCapturer.handleAutoCapture)\<close>

text \<open>\<open>video.duration\<close>: \<open>NaN\<close> before the metadata is loaded, \<open>Infinity\<close> for a stream.\<close>

datatype js_duration = NaN | Infinity | Seconds real

text \<open>
  What \<open>handleAutoCapture\<close> meets: whether \<open>videoRef.current\<close> and \<open>canvasRef.current\<close>
  are set, the ready state and the duration of the video, the answer to
  \<open>window.confirm\<close>, what the browser offers at the capture of step \<open>i\<close> after the seek
  to a position (\<open>snapshot i position\<close>), and the ranking service.
\<close>

record auto_env =
  video_ref :: bool
  canvas_ref :: bool
  readyState :: nat
  duration :: js_duration
  confirmed :: bool
  snapshot :: "nat \<Rightarrow> real \<Rightarrow> capture_env"
  ranking :: ranking_service

definition steps :: nat where
  "steps = 12"

definition interval_of :: "real \<Rightarrow> real" where
  "interval_of d = d / (real steps + 1)"

text \<open>
  The scan loop over the step numbers still to do. An exception of
  \<open>createFrameFromVideo\<close> leaves the loop (\<open>Inl\<close>); \<open>null\<close> is logged and skipped.
\<close>

fun scan_loop ::
  "(nat \<Rightarrow> real \<Rightarrow> capture_env) \<Rightarrow> real \<Rightarrow> nat list \<Rightarrow> CapturedFrame list \<Rightarrow> capturer
     \<Rightarrow> capturer \<times> (string + CapturedFrame list)" where
  "scan_loop snap interval [] candidates s = (s, Inr candidates)"
| "scan_loop snap interval (i # rest) candidates s =
     (let s1 = s\<lparr>statusMessage := ScanningFrame i steps\<rparr>;
          time = interval * real i;
          s2 = s1\<lparr>seeks := seeks s1 @ [time]\<rparr>
      in case createFrameFromVideo (snap i time) of
           Inl msg \<Rightarrow> (s2, Inl msg)
         | Inr (Some frame) \<Rightarrow> scan_loop snap interval rest (candidates @ [frame]) s2
         | Inr None \<Rightarrow>
             scan_loop snap interval rest candidates (addLog (SkippedFrame time) s2))"

definition scan_video :: "auto_env \<Rightarrow> real \<Rightarrow> capturer \<Rightarrow> capturer \<times> (string + CapturedFrame list)" where
  "scan_video env d s =
     (let s1 = addLog (DurationLog d) s;
          interval = interval_of d;
          s2 = s1\<lparr>isPlaying := False\<rparr>
      in scan_loop (snapshot env) interval [1..<Suc steps] [] s2)"

text \<open>\<open>candidates[idx]\<close> for an integer \<open>idx\<close>: \<open>undefined\<close> (\<open>None\<close>) outside the array.\<close>

definition array_at :: "'a list \<Rightarrow> int \<Rightarrow> 'a option" where
  "array_at xs i = (if 0 \<le> i \<and> i < int (length xs) then Some (xs ! nat i) else None)"

definition finalFrames :: "CapturedFrame list \<Rightarrow> int list \<Rightarrow> CapturedFrame list" where
  "finalFrames candidates selectedIndices =
     map the (filter (\<lambda>f. f \<noteq> None) (map (\<lambda>idx. array_at candidates idx) selectedIndices))"

text \<open>Step 4, "Send to AI"; the second component is the exception thrown, if any.\<close>

definition send_to_ai :: "ranking_service \<Rightarrow> CapturedFrame list \<Rightarrow> capturer \<Rightarrow> capturer \<times> string option" where
  "send_to_ai svc candidates s =
     (if length candidates > 0 then
        (let s1 = addLog (AnalyzingFrames (length candidates)) (s\<lparr>statusMessage := AIAnalyzing\<rparr>);
             s2 = s1\<lparr>ranking_calls := ranking_calls s1 @ [candidates]\<rparr>
         in case filterBestFrames svc candidates of
              Inl msg \<Rightarrow> (s2, Some msg)
            | Inr selectedIndices \<Rightarrow>
                (let s3 = addLog (SelectedFrames (length selectedIndices)) s2
                 in (s3\<lparr>frames := finalFrames candidates selectedIndices\<rparr>, None)))
      else (s, Some ''No valid frames could be captured.''))"

text \<open>The deferred body: \<open>try\<close>, \<open>catch\<close> and \<open>finally\<close>.\<close>

definition auto_select_job :: "auto_env \<Rightarrow> real \<Rightarrow> capturer \<Rightarrow> capturer" where
  "auto_select_job env d s =
     (let (s1, scanned) = scan_video env d s;
          (s2, err) =
             (case scanned of
                Inl msg \<Rightarrow> (s1, Some msg)
              | Inr candidates \<Rightarrow> send_to_ai (ranking env) candidates s1);
          s3 = (case err of
                  None \<Rightarrow> s2
                | Some msg \<Rightarrow> alert (AutoSelectFailedAlert msg) (addLog (ErrorLog msg) s2))
      in s3\<lparr>isAnalyzing := False, statusMessage := NoStatus\<rparr>)"

definition handleAutoCapture :: "auto_env \<Rightarrow> capturer \<Rightarrow> capturer" where
  "handleAutoCapture env s =
     (if \<not> video_ref env \<or> \<not> canvas_ref env then alert SystemErrorAlert s
      else if readyState env < 2 then alert VideoNotReadyAlert s
      else case duration env of
             NaN \<Rightarrow> alert DurationAlert s
           | Infinity \<Rightarrow> alert DurationAlert s
           | Seconds d \<Rightarrow>
               (if \<not> confirmed env then s
                else auto_select_job env d
                       (addLog ProcessStarted
                          (s\<lparr>frames := [], isAnalyzing := True, debugLogs := [],
                             statusMessage := Initializing\<rparr>))))"

section \<open>Handout generation (geminiService.generateHandoutContent)\<close>

datatype json =
    JNull
  | JBool bool
  | JNumber real
  | JString string
  | JArray "json list"
  | JObject "(string \<times> json) list"

text \<open>
  What it means for a parsed payload to match a schema: an object has every required
  property, and each property the schema describes has the type described.
\<close>

fun conforms :: "schema \<Rightarrow> json \<Rightarrow> bool" where
  "conforms StringT (JString s) = True"
| "conforms IntegerT (JNumber x) = (of_int \<lfloor>x\<rfloor> = x)"
| "conforms (ArrayT t) (JArray vs) = list_all (conforms t) vs"
| "conforms (ObjectT props required) (JObject kvs) =
     (list_all (\<lambda>k. map_of kvs k \<noteq> None) required \<and>
      list_all (\<lambda>(k, t). case map_of kvs k of None \<Rightarrow> True | Some v \<Rightarrow> conforms t v) props)"
| "conforms t v = False"

text \<open>
  Arrays live in a store, so that sorting one in place is visible to whoever holds a
  reference to it: a reference is an index into the store. \<open>[...a]\<close> allocates a copy,
  \<open>sort\<close> with the comparator \<open>a.timestamp - b.timestamp\<close> sorts the array it is called
  on (stably, by timestamp) and returns the same reference.
\<close>

type_synonym store = "CapturedFrame list list"

definition array_spread :: "store \<Rightarrow> nat \<Rightarrow> nat \<times> store" where
  "array_spread h a = (length h, h @ [h ! a])"

definition array_sort :: "store \<Rightarrow> nat \<Rightarrow> nat \<times> store" where
  "array_sort h a = (a, h[a := sort_key timestamp (h ! a)])"

record generation_service =
  gen_generateContent :: "request \<Rightarrow> string + string option"
  JSON_parse :: "string \<Rightarrow> string + json"

definition handout_request :: "CapturedFrame list \<Rightarrow> request" where
  "handout_request sortedFrames =
     \<lparr>model = ''gemini-2.5-flash'',
      parts = map image_part sortedFrames @ [HandoutPrompt (length sortedFrames)],
      responseMimeType = ''application/json'',
      responseSchema = HANDOUT_SCHEMA,
      systemInstruction =
        Some (''You are a helpful education assistant specializing in creating clear, '' @
              ''step-by-step guides from visual inputs.'')\<rparr>"

text \<open>
  The result of a call: what the promise settles to (\<open>Inl\<close> the error thrown again by
  the \<open>catch\<close> block, \<open>Inr\<close> the value returned), the store afterwards and the requests
  submitted to the generation capability.
\<close>

record generation_result =
  outcome :: "string + json"
  store_after :: store
  submitted :: "request list"

definition generateHandoutContent :: "generation_service \<Rightarrow> store \<Rightarrow> nat \<Rightarrow> generation_result" where
  "generateHandoutContent svc h frames_ref =
     (let (copy, h1) = array_spread h frames_ref;
          (sortedFrames, h2) = array_sort h1 copy;
          req = handout_request (h2 ! sortedFrames)
      in \<lparr>outcome =
            (case gen_generateContent svc req of
               Inl msg \<Rightarrow> Inl msg
             | Inr None \<Rightarrow> Inl ''No response from Gemini''
             | Inr (Some text) \<Rightarrow>
                 (if text = [] then Inl ''No response from Gemini''
                  else JSON_parse svc text)),
          store_after = h2,
          submitted = [req]\<rparr>)"

section \<open>Display (HandoutDisplay)\<close>

record StepWithImage = HandoutStep +
  image :: "CapturedFrame option"







section \<open>Notions used in the statements\<close>

text \<open>The checks of \<open>handleAutoCapture\<close> pass and the user confirms: the scan runs.\<close>

definition scan_starts :: "auto_env \<Rightarrow> real \<Rightarrow> bool" where
  "scan_starts env d =
     (video_ref env \<and> canvas_ref env \<and> 2 \<le> readyState env \<and> duration env = Seconds d \<and>
      confirmed env)"

text \<open>What \<open>createFrameFromVideo\<close> does at step \<open>i\<close> of the scan of a video of length \<open>d\<close>.\<close>

definition capture_at :: "auto_env \<Rightarrow> real \<Rightarrow> nat \<Rightarrow> string + CapturedFrame option" where
  "capture_at env d i = createFrameFromVideo (snapshot env i (interval_of d * real i))"

text \<open>The positions the loop computes, \<open>interval * i\<close> for \<open>i\<close> from 1 to \<open>steps\<close>.\<close>

definition sample_times :: "real \<Rightarrow> real list" where
  "sample_times d = map (\<lambda>i. interval_of d * real i) [1..<Suc steps]"

text \<open>The indices of a selection result that lie inside an array of length \<open>n\<close>.\<close>

definition valid_indices :: "nat \<Rightarrow> int list \<Rightarrow> int list" where
  "valid_indices n idxs = filter (\<lambda>i. 0 \<le> i \<and> i < int n) idxs"

text \<open>The steps of a list at which the capture returns \<open>null\<close>, and the frames of the others.\<close>

definition skipped :: "(nat \<Rightarrow> real \<Rightarrow> capture_env) \<Rightarrow> real \<Rightarrow> nat list \<Rightarrow> nat list" where
  "skipped snap iv is = filter (\<lambda>i. createFrameFromVideo (snap i (iv * real i)) = Inr None) is"

definition captured :: "(nat \<Rightarrow> real \<Rightarrow> capture_env) \<Rightarrow> real \<Rightarrow> nat list \<Rightarrow> CapturedFrame list" where
  "captured snap iv is =
     List.map_filter
       (\<lambda>i. case createFrameFromVideo (snap i (iv * real i)) of Inl msg \<Rightarrow> None | Inr r \<Rightarrow> r) is"


section \<open>A test scenario\<close>

text \<open>
  A video of 26 seconds (one sample every 2 seconds) whose player reports the position
  it was sent to. The capture returns \<open>null\<close> at the steps in \<open>nulls\<close> and throws at the
  steps in \<open>throws\<close>; the ranking service answers with \<open>idxs\<close>.
\<close>

definition demo_url :: "nat \<Rightarrow> string" where
  "demo_url i = ''data:image/jpeg;base64,QUJD'' @ show_nat i"

definition demo_env :: "nat list \<Rightarrow> nat list \<Rightarrow> int list \<Rightarrow> auto_env" where
  "demo_env nulls throws idxs =
     \<lparr>video_ref = True, canvas_ref = True, readyState = 4, duration = Seconds 26,
      confirmed = True,
      snapshot = (\<lambda>i t. \<lparr>canvas = True, context2d = (i \<notin> set nulls),
                           export = (if i \<in> set throws then Inl ''tainted'' else Inr (demo_url i)),
                           currentTime = t, random_id = ''f'' @ show_nat i\<rparr>),
      ranking = \<lparr>rank_generateContent = (\<lambda>r. Inr (Some ''payload'')),
                 parse_selection = (\<lambda>t. Inr idxs)\<rparr>\<rparr>"

text \<open>The frame that the scan of \<open>demo_env\<close> captures at step \<open>i\<close>.\<close>

definition demo_frame :: "nat \<Rightarrow> CapturedFrame" where
  "demo_frame i =
     \<lparr>frame_id = ''f'' @ show_nat i, dataUrl = demo_url i,
      timestamp = 2 * real i, originalTimeFormatted = formatTime (2 * real i)\<rparr>"

definition idle :: capturer where
  "idle =
     \<lparr>frames = [], isPlaying = False, isAnalyzing = False, statusMessage = NoStatus,
      debugLogs = [], console_log = [], alerts = [], seeks = [], ranking_calls = []\<rparr>"

text \<open>A manual capture while the video stands at position \<open>t\<close>.\<close>

definition demo_capture :: "real \<Rightarrow> capture_env" where
  "demo_capture t =
     \<lparr>canvas = True, context2d = True, export = Inr (demo_url 0), currentTime = t,
      random_id = ''manual''\<rparr>"

text \<open>
  A generation service that answers every request with \<open>response\<close>. Of \<open>JSON.parse\<close> the
  scenario needs two facts only: the text \<open>{}\<close> is the empty object, and the text \<open>{\<close>
  is a syntax error.
\<close>

definition demo_parse :: "string \<Rightarrow> string + json" where
  "demo_parse text = (if text = ''{}'' then Inr (JObject []) else Inl ''SyntaxError'')"

definition demo_generation :: "string + string option \<Rightarrow> generation_service" where
  "demo_generation response =
     \<lparr>gen_generateContent = (\<lambda>r. response), JSON_parse = demo_parse\<rparr>"


section \<open>Facts about the scan\<close>

lemma steps_list: "[1..<Suc steps] = [1, 2, 3, 4, 5, 6, 7, 8, 9, 10, 11, 12]"
  by (simp add: steps_def upt_conv_Cons)

lemma set_steps: "set [1..<Suc steps] = {1..steps}"
  by auto

lemma addLog_fields [simp]:
  "frames (addLog m s) = frames s"
  "alerts (addLog m s) = alerts s"
  "seeks (addLog m s) = seeks s"
  "ranking_calls (addLog m s) = ranking_calls s"
  "console_log (addLog m s) = console_log s @ [m]"
  by (simp_all add: addLog_def)

text \<open>What the loop returns does not depend on the state of the component.\<close>

lemma scan_loop_snd:
  "snd (scan_loop snap iv is cands s) = snd (scan_loop snap iv is cands s')"
proof (induction "is" arbitrary: cands s s')
  case Nil
  show ?case by simp
next
  case (Cons i rest)
  show ?case
  proof (cases "createFrameFromVideo (snap i (iv * real i))")
    case (Inl msg)
    then show ?thesis by (simp add: Let_def)
  next
    case (Inr r)
    show ?thesis
    proof (cases r)
      case None
      with Inr show ?thesis using Cons.IH by (simp add: Let_def)
    next
      case (Some f)
      with Inr show ?thesis using Cons.IH by (simp add: Let_def)
    qed
  qed
qed

text \<open>The loop leaves the frame list, the alerts and the ranking calls alone.\<close>

lemma scan_loop_keeps:
  "frames (fst (scan_loop snap iv is cands s)) = frames s \<and>
   alerts (fst (scan_loop snap iv is cands s)) = alerts s \<and>
   ranking_calls (fst (scan_loop snap iv is cands s)) = ranking_calls s"
proof (induction "is" arbitrary: cands s)
  case Nil
  show ?case by simp
next
  case (Cons i rest)
  show ?case
  proof (cases "createFrameFromVideo (snap i (iv * real i))")
    case (Inl msg)
    then show ?thesis by (simp add: Let_def)
  next
    case (Inr r)
    show ?thesis
    proof (cases r)
      case None
      with Inr show ?thesis using Cons.IH by (simp add: Let_def)
    next
      case (Some f)
      with Inr show ?thesis using Cons.IH by (simp add: Let_def)
    qed
  qed
qed

lemma scan_video_snd: "snd (scan_video env d s) = snd (scan_video env d s')"
  unfolding scan_video_def Let_def by (rule scan_loop_snd)

lemma scan_video_keeps:
  "frames (fst (scan_video env d s)) = frames s"
  "alerts (fst (scan_video env d s)) = alerts s"
  "ranking_calls (fst (scan_video env d s)) = ranking_calls s"
  unfolding scan_video_def Let_def by (simp_all add: scan_loop_keeps)

lemma captured_Cons:
  "captured snap iv (i # rest) =
     (case createFrameFromVideo (snap i (iv * real i)) of
        Inr (Some f) \<Rightarrow> f # captured snap iv rest
      | _ \<Rightarrow> captured snap iv rest)"
  by (simp add: captured_def List.map_filter_simps split: sum.splits option.splits)

text \<open>A loop in which no capture throws runs to its end.\<close>

lemma scan_loop_no_throw:
  assumes "\<forall>i\<in>set is. \<not> isl (createFrameFromVideo (snap i (iv * real i)))"
  shows "snd (scan_loop snap iv is cands s) = Inr (cands @ captured snap iv is)
       \<and> console_log (fst (scan_loop snap iv is cands s)) =
           console_log s @ map (\<lambda>i. SkippedFrame (iv * real i)) (skipped snap iv is)
       \<and> seeks (fst (scan_loop snap iv is cands s)) = seeks s @ map (\<lambda>i. iv * real i) is"
  using assms
proof (induction "is" arbitrary: cands s)
  case Nil
  show ?case by (simp add: captured_def skipped_def List.map_filter_simps)
next
  case (Cons i rest)
  then have rest: "\<forall>j\<in>set rest. \<not> isl (createFrameFromVideo (snap j (iv * real j)))"
    by simp
  show ?case
  proof (cases "createFrameFromVideo (snap i (iv * real i))")
    case (Inl msg)
    with Cons.prems show ?thesis by simp
  next
    case (Inr r)
    show ?thesis
    proof (cases r)
      case None
      with Inr show ?thesis
        using Cons.IH [OF rest] by (simp add: Let_def captured_Cons skipped_def)
    next
      case (Some f)
      with Inr show ?thesis
        using Cons.IH [OF rest] by (simp add: Let_def captured_Cons skipped_def)
    qed
  qed
qed

text \<open>Conversely, a loop that runs to its end met no exception.\<close>

lemma scan_loop_completes:
  assumes "snd (scan_loop snap iv is cands s) = Inr result"
  shows "\<forall>i\<in>set is. \<not> isl (createFrameFromVideo (snap i (iv * real i)))"
  using assms
proof (induction "is" arbitrary: cands s)
  case Nil
  show ?case by simp
next
  case (Cons i rest)
  show ?case
  proof (cases "createFrameFromVideo (snap i (iv * real i))")
    case (Inl msg)
    with Cons.prems show ?thesis by (simp add: Let_def)
  next
    case (Inr r)
    show ?thesis
    proof (cases r)
      case None
      with Inr Cons.prems show ?thesis
        using Cons.IH by (simp add: Let_def)
    next
      case (Some f)
      with Inr Cons.prems show ?thesis
        using Cons.IH by (simp add: Let_def)
    qed
  qed
qed


lemma timestamp_created:
  "createFrameFromVideo c = Inr (Some f) \<Longrightarrow> timestamp f = currentTime c"
  by (auto simp: createFrameFromVideo_def split: if_splits sum.splits)

lemma timestamps_captured:
  "map timestamp (captured snap iv is) =
     map (\<lambda>i. currentTime (snap i (iv * real i)))
       (filter (\<lambda>i. \<exists>f. createFrameFromVideo (snap i (iv * real i)) = Inr (Some f)) is)"
proof (induction "is")
  case Nil
  show ?case by (simp add: captured_def List.map_filter_simps)
next
  case (Cons i rest)
  then show ?case
    by (cases "createFrameFromVideo (snap i (iv * real i))")
       (auto simp: captured_Cons timestamp_created split: option.splits)
qed


lemma captured_ordered:
  assumes "0 \<le> iv" and "sorted is"
    and "\<forall>i\<in>set is. currentTime (snap i (iv * real i)) = iv * real i"
  shows "sorted (map timestamp (captured snap iv is))"
proof -
  let ?ok = "\<lambda>i. \<exists>f. createFrameFromVideo (snap i (iv * real i)) = Inr (Some f)"
  have "sorted_wrt (\<le>) (filter ?ok is)"
    using assms(2) by (simp add: sorted_wrt_filter)
  then have "sorted_wrt (\<lambda>i j. currentTime (snap i (iv * real i)) \<le> currentTime (snap j (iv * real j)))
               (filter ?ok is)"
  proof (rule sorted_wrt_mono_rel [rotated])
    fix i j
    assume "i \<in> set (filter ?ok is)" "j \<in> set (filter ?ok is)" "i \<le> j"
    then show "currentTime (snap i (iv * real i)) \<le> currentTime (snap j (iv * real j))"
      using assms(1,3) by (simp add: mult_left_mono)
  qed
  then show ?thesis
    by (simp add: timestamps_captured sorted_wrt_map)
qed

lemma scan_video_no_throw:
  assumes "\<forall>i\<in>{1..steps}. \<not> isl (capture_at env d i)"
  shows "snd (scan_video env d s) = Inr (captured (snapshot env) (interval_of d) [1..<Suc steps])"
    and "console_log (fst (scan_video env d s)) =
           console_log s @ DurationLog d #
             map (\<lambda>i. SkippedFrame (interval_of d * real i))
               (skipped (snapshot env) (interval_of d) [1..<Suc steps])"
    and "seeks (fst (scan_video env d s)) = seeks s @ sample_times d"
proof -
  have "\<forall>i\<in>set [1..<Suc steps].
          \<not> isl (createFrameFromVideo (snapshot env i (interval_of d * real i)))"
    using assms unfolding set_steps capture_at_def .
  note loop = scan_loop_no_throw [of "[1..<Suc steps]" "snapshot env" "interval_of d", OF this]
  show "snd (scan_video env d s) = Inr (captured (snapshot env) (interval_of d) [1..<Suc steps])"
    unfolding scan_video_def Let_def using loop by simp
  show "console_log (fst (scan_video env d s)) =
           console_log s @ DurationLog d #
             map (\<lambda>i. SkippedFrame (interval_of d * real i))
               (skipped (snapshot env) (interval_of d) [1..<Suc steps])"
    unfolding scan_video_def Let_def using loop by simp
  show "seeks (fst (scan_video env d s)) = seeks s @ sample_times d"
    unfolding scan_video_def Let_def sample_times_def using loop by simp
qed

lemma scan_video_completes:
  assumes "snd (scan_video env d s) = Inr result"
  shows "\<forall>i\<in>{1..steps}. \<not> isl (capture_at env d i)"
  using scan_loop_completes [OF assms [unfolded scan_video_def Let_def]]
  unfolding set_steps capture_at_def .

section \<open>Facts about the deferred job\<close>

lemma handleAutoCapture_runs:
  "scan_starts env d \<Longrightarrow>
   handleAutoCapture env s =
     auto_select_job env d
       (addLog ProcessStarted
          (s\<lparr>frames := [], isAnalyzing := True, debugLogs := [], statusMessage := Initializing\<rparr>))"
  by (simp add: scan_starts_def handleAutoCapture_def)

lemma job_selected:
  assumes "snd (scan_video env d s) = Inr candidates" "candidates \<noteq> []"
    and "filterBestFrames (ranking env) candidates = Inr idxs"
  shows "frames (auto_select_job env d s) = finalFrames candidates idxs"
    and "ranking_calls (auto_select_job env d s) = ranking_calls s @ [candidates]"
    and "alerts (auto_select_job env d s) = alerts s"
  using assms scan_video_keeps [of env d s]
  by (cases "scan_video env d s"; simp add: auto_select_job_def send_to_ai_def Let_def)+

lemma job_no_frames:
  assumes "snd (scan_video env d s) = Inr []"
  shows "frames (auto_select_job env d s) = frames s"
    and "ranking_calls (auto_select_job env d s) = ranking_calls s"
    and "alerts (auto_select_job env d s) =
           alerts s @ [AutoSelectFailedAlert ''No valid frames could be captured.'']"
  using assms scan_video_keeps [of env d s]
  by (cases "scan_video env d s"; simp add: auto_select_job_def send_to_ai_def Let_def alert_def)+


lemma finalFrames_eq:
  "finalFrames candidates idxs =
     map (\<lambda>i. candidates ! nat i) (filter (\<lambda>i. 0 \<le> i \<and> i < int (length candidates)) idxs)"
  by (induction idxs) (simp_all add: finalFrames_def array_at_def)

lemma distinct_finalFrames:
  assumes "distinct candidates"
  shows "distinct (finalFrames candidates idxs) = distinct (valid_indices (length candidates) idxs)"
proof -
  let ?v = "valid_indices (length candidates) idxs"
  have inj: "inj_on (\<lambda>i. candidates ! nat i) (set ?v)"
    using assms by (auto simp: inj_on_def valid_indices_def nth_eq_iff_index_eq)
  have "finalFrames candidates idxs = map (\<lambda>i. candidates ! nat i) ?v"
    by (simp add: finalFrames_eq valid_indices_def)
  then show ?thesis using inj by (simp add: distinct_map)
qed

lemma sorted_finalFrames:
  assumes "sorted (map timestamp candidates)"
    and "sorted (valid_indices (length candidates) idxs)"
  shows "sorted (map timestamp (finalFrames candidates idxs))"
proof -
  let ?v = "valid_indices (length candidates) idxs"
  have ff: "finalFrames candidates idxs = map (\<lambda>i. candidates ! nat i) ?v"
    by (simp add: finalFrames_eq valid_indices_def)
  have "sorted_wrt (\<le>) ?v"
    using assms(2) by simp
  then have "sorted_wrt (\<lambda>i j. timestamp (candidates ! nat i) \<le> timestamp (candidates ! nat j)) ?v"
  proof (rule sorted_wrt_mono_rel [rotated])
    fix i j
    assume i: "i \<in> set ?v" and j: "j \<in> set ?v" and le: "i \<le> j"
    then have ij: "nat i \<le> nat j" and bj: "nat j < length (map timestamp candidates)"
      by (auto simp: valid_indices_def)
    have "map timestamp candidates ! nat i \<le> map timestamp candidates ! nat j"
      using assms(1) ij bj by (rule sorted_nth_mono)
    moreover have "nat i < length candidates" "nat j < length candidates"
      using i j by (auto simp: valid_indices_def)
    ultimately show "timestamp (candidates ! nat i) \<le> timestamp (candidates ! nat j)"
      by simp
  qed
  then show ?thesis
    by (simp add: ff sorted_wrt_map)
qed

section \<open>Facts about the test scenario\<close>

lemma demo_capture_at:
  "capture_at (demo_env nulls throws idxs) 26 i =
     (if i \<in> set nulls then Inr None
      else if i \<in> set throws then Inl ''Canvas export failed (Security/CORS): tainted''
      else Inr (Some (demo_frame i)))"
  by (simp add: capture_at_def createFrameFromVideo_def demo_env_def demo_frame_def
      interval_of_def steps_def)

lemma demo_starts: "scan_starts (demo_env nulls throws idxs) 26"
  by (simp add: scan_starts_def demo_env_def)

lemma demo_scan_two_skipped:
  "snd (scan_video (demo_env [5, 9] [] idxs) 26 idle) =
     Inr (map demo_frame [1, 2, 3, 4, 6, 7, 8, 10, 11, 12])"
proof -
  have "\<forall>i\<in>{1..steps}. \<not> isl (capture_at (demo_env [5, 9] [] idxs) 26 i)"
    by (simp add: demo_capture_at)
  then have "snd (scan_video (demo_env [5, 9] [] idxs) 26 idle) =
      Inr (captured (snapshot (demo_env [5, 9] [] idxs)) (interval_of 26) [1..<Suc steps])"
    by (rule scan_video_no_throw(1))
  moreover have "captured (snapshot (demo_env [5, 9] [] idxs)) (interval_of 26) [1..<Suc steps] =
      map demo_frame [1, 2, 3, 4, 6, 7, 8, 10, 11, 12]"
    unfolding steps_list using demo_capture_at [of "[5, 9]" "[]" idxs]
    by (simp add: captured_def capture_at_def List.map_filter_simps)
  ultimately show ?thesis by simp
qed


lemma demo_frame_inj: "inj_on demo_frame A"
  by (rule inj_onI) (simp add: demo_frame_def)

lemma demo_frames_distinct: "distinct (map demo_frame xs) = distinct xs"
  by (simp add: distinct_map demo_frame_inj)

section \<open>The curated set\<close>

text \<open>
  Claim C1. When the scan of a run of \<open>handleAutoCapture\<close> ends with the candidates
  \<open>candidates\<close> (at least one) and the ranking call returns the integers
  \<open>selectedIndices\<close>, the frame list of the component becomes the candidates at the
  indices of the result that lie in \<open>[0, length candidates)\<close>, in the order of the
  result: indices outside the range are dropped and nothing is sorted again.
\<close>

theorem auto_select_maps_selection:
  assumes "scan_starts env d"
    and "snd (scan_video env d s) = Inr candidates" and "candidates \<noteq> []"
    and "filterBestFrames (ranking env) candidates = Inr selectedIndices"
  shows "frames (handleAutoCapture env s) =
           map (\<lambda>i. candidates ! nat i)
             (filter (\<lambda>i. 0 \<le> i \<and> i < int (length candidates)) selectedIndices)"
proof -
  let ?s0 = "addLog ProcessStarted
          (s\<lparr>frames := [], isAnalyzing := True, debugLogs := [], statusMessage := Initializing\<rparr>)"
  have "snd (scan_video env d ?s0) = Inr candidates"
    using assms(2) scan_video_snd [of env d ?s0 s] by simp
  then have "frames (auto_select_job env d ?s0) = finalFrames candidates selectedIndices"
    using assms(3,4) by (rule job_selected(1))
  then show ?thesis
    using assms(1) by (simp add: handleAutoCapture_runs finalFrames_eq)
qed

text \<open>
  Ten candidates (the captures of steps 5 and 9 return \<open>null\<close>) and the result
  \<open>[2, 7, 15, 1]\<close>: the curated set is the candidates 2, 7 and 1, which are the frames
  of steps 3, 10 and 2.
\<close>

theorem auto_select_maps_selection_witness:
  "frames (handleAutoCapture (demo_env [5, 9] [] [2, 7, 15, 1]) idle) =
     [demo_frame 3, demo_frame 10, demo_frame 2]"
proof -
  let ?E = "demo_env [5, 9] [] [2, 7, 15, 1]"
  let ?cands = "map demo_frame [1, 2, 3, 4, 6, 7, 8, 10, 11, 12]"
  have rank: "filterBestFrames (ranking ?E) ?cands = Inr [2, 7, 15, 1]"
    by (simp add: filterBestFrames_def demo_env_def)
  have ne: "?cands \<noteq> []"
    by simp
  show ?thesis
    using auto_select_maps_selection [OF demo_starts demo_scan_two_skipped ne rank] by simp
qed

section \<open>Capture failures during the scan\<close>




section \<open>Repeated indices\<close>

text \<open>
  Claim C3, as the code has it. The selection result is not deduplicated: the curated
  set has one entry for each index of the result that lies in range, repeats included.
  With candidates that are pairwise different, it is free of repeated frames exactly
  when the in-range indices of the result are pairwise different.
\<close>

theorem selection_keeps_repeats:
  assumes "scan_starts env d"
    and "snd (scan_video env d s) = Inr candidates" and "candidates \<noteq> []"
    and "filterBestFrames (ranking env) candidates = Inr selectedIndices"
    and "distinct candidates"
  shows "length (frames (handleAutoCapture env s)) =
           length (valid_indices (length candidates) selectedIndices)
       \<and> distinct (frames (handleAutoCapture env s)) =
           distinct (valid_indices (length candidates) selectedIndices)"
proof -
  let ?s0 = "addLog ProcessStarted
          (s\<lparr>frames := [], isAnalyzing := True, debugLogs := [], statusMessage := Initializing\<rparr>)"
  have "snd (scan_video env d ?s0) = Inr candidates"
    using assms(2) scan_video_snd [of env d ?s0 s] by simp
  then have "frames (auto_select_job env d ?s0) = finalFrames candidates selectedIndices"
    using assms(3,4) by (rule job_selected(1))
  then have "frames (handleAutoCapture env s) = finalFrames candidates selectedIndices"
    using assms(1) by (simp add: handleAutoCapture_runs)
  then show ?thesis
    using distinct_finalFrames [OF assms(5)] by (simp add: finalFrames_eq valid_indices_def)
qed

theorem selection_keeps_repeats_witness:
  "length (frames (handleAutoCapture (demo_env [5, 9] [] [2, 7, 15, 1]) idle)) = 3
   \<and> distinct (frames (handleAutoCapture (demo_env [5, 9] [] [2, 7, 15, 1]) idle))"
proof -
  let ?E = "demo_env [5, 9] [] [2, 7, 15, 1]"
  let ?cands = "map demo_frame [1, 2, 3, 4, 6, 7, 8, 10, 11, 12]"
  have rank: "filterBestFrames (ranking ?E) ?cands = Inr [2, 7, 15, 1]"
    by (simp add: filterBestFrames_def demo_env_def)
  have ne: "?cands \<noteq> []"
    by simp
  have dist: "distinct ?cands"
    by (subst demo_frames_distinct) simp
  show ?thesis
    using selection_keeps_repeats [OF demo_starts demo_scan_two_skipped ne rank dist]
    by (simp add: valid_indices_def)
qed

text \<open>
  Twelve candidates and the result \<open>[1, 1]\<close>: the frame of step 2 is handed on twice.
\<close>

theorem selection_repeated_index:
  "frames (handleAutoCapture (demo_env [] [] [1, 1]) idle) = [demo_frame 2, demo_frame 2]
   \<and> \<not> distinct (frames (handleAutoCapture (demo_env [] [] [1, 1]) idle))"
proof -
  let ?E = "demo_env [] [] [1, 1]"
  let ?s0 = "addLog ProcessStarted
          (idle\<lparr>frames := [], isAnalyzing := True, debugLogs := [], statusMessage := Initializing\<rparr>)"
  let ?cands = "map demo_frame [1, 2, 3, 4, 5, 6, 7, 8, 9, 10, 11, 12]"
  have "\<forall>i\<in>{1..steps}. \<not> isl (capture_at ?E 26 i)"
    by (simp add: demo_capture_at)
  then have "snd (scan_video ?E 26 ?s0) =
      Inr (captured (snapshot ?E) (interval_of 26) [1..<Suc steps])"
    by (rule scan_video_no_throw(1))
  moreover have "captured (snapshot ?E) (interval_of 26) [1..<Suc steps] = ?cands"
    unfolding steps_list using demo_capture_at [of "[]" "[]" "[1, 1]"]
    by (simp add: captured_def capture_at_def List.map_filter_simps)
  ultimately have scan: "snd (scan_video ?E 26 ?s0) = Inr ?cands"
    by simp
  have rank: "filterBestFrames (ranking ?E) ?cands = Inr [1, 1]"
    by (simp add: filterBestFrames_def demo_env_def)
  have ne: "?cands \<noteq> []"
    by simp
  have run: "handleAutoCapture ?E idle = auto_select_job ?E 26 ?s0"
    using demo_starts by (rule handleAutoCapture_runs)
  have "frames (handleAutoCapture ?E idle) = finalFrames ?cands [1, 1]"
    unfolding run using scan ne rank by (rule job_selected(1))
  then show ?thesis
    by (simp add: finalFrames_def array_at_def)
qed

section \<open>The sampled positions\<close>






section \<open>A scan without frames\<close>

lemma no_frames_msg_not_capture:
  "createFrameFromVideo c \<noteq> Inl ''No valid frames could be captured.''"
  by (simp add: createFrameFromVideo_def split: sum.splits)

text \<open>
  Claim C6. When the loop of a run of \<open>handleAutoCapture\<close> ends with no candidate, the
  run fails with the error "No valid frames could be captured.", which is reported to
  the user; \<open>filterBestFrames\<close> is not called and the frame list stays empty. No
  capture error carries this message: those of \<open>createFrameFromVideo\<close> all start with
  "Canvas export failed".
\<close>

theorem no_frames_captured_error:
  assumes "scan_starts env d" and "snd (scan_video env d s) = Inr []"
  shows "alerts (handleAutoCapture env s) =
           alerts s @ [AutoSelectFailedAlert ''No valid frames could be captured.'']
         \<and> ranking_calls (handleAutoCapture env s) = ranking_calls s
         \<and> frames (handleAutoCapture env s) = []
         \<and> (\<forall>c. createFrameFromVideo c \<noteq> Inl ''No valid frames could be captured.'')"
proof -
  let ?s0 = "addLog ProcessStarted
          (s\<lparr>frames := [], isAnalyzing := True, debugLogs := [], statusMessage := Initializing\<rparr>)"
  have scan: "snd (scan_video env d ?s0) = Inr []"
    using assms(2) scan_video_snd [of env d ?s0 s] by simp
  have run: "handleAutoCapture env s = auto_select_job env d ?s0"
    using assms(1) by (rule handleAutoCapture_runs)
  show ?thesis
    using job_no_frames [OF scan] no_frames_msg_not_capture by (simp add: run)
qed

text \<open>All twelve captures return \<open>null\<close>.\<close>

theorem no_frames_captured_error_witness:
  "alerts (handleAutoCapture (demo_env [1, 2, 3, 4, 5, 6, 7, 8, 9, 10, 11, 12] [] []) idle) =
     [AutoSelectFailedAlert ''No valid frames could be captured.'']
   \<and> ranking_calls (handleAutoCapture (demo_env [1, 2, 3, 4, 5, 6, 7, 8, 9, 10, 11, 12] [] []) idle) = []
   \<and> frames (handleAutoCapture (demo_env [1, 2, 3, 4, 5, 6, 7, 8, 9, 10, 11, 12] [] []) idle) = []"
proof -
  let ?E = "demo_env [1, 2, 3, 4, 5, 6, 7, 8, 9, 10, 11, 12] [] []"
  have "\<forall>i\<in>{1..steps}. \<not> isl (capture_at ?E 26 i)"
    by (simp add: demo_capture_at)
  then have "snd (scan_video ?E 26 idle) =
      Inr (captured (snapshot ?E) (interval_of 26) [1..<Suc steps])"
    by (rule scan_video_no_throw(1))
  moreover have "captured (snapshot ?E) (interval_of 26) [1..<Suc steps] = []"
    unfolding steps_list
    using demo_capture_at [of "[1, 2, 3, 4, 5, 6, 7, 8, 9, 10, 11, 12]" "[]" "[]"]
    by (simp add: captured_def capture_at_def List.map_filter_simps)
  ultimately have scan: "snd (scan_video ?E 26 idle) = Inr []"
    by simp
  show ?thesis
    using no_frames_captured_error [OF demo_starts scan] by (simp add: idle_def)
qed

section \<open>The order of the frame lists\<close>

lemma captureFrame_appends:
  "createFrameFromVideo c = Inr (Some f) \<Longrightarrow> frames (captureFrame True c s) = frames s @ [f]"
  by (simp add: captureFrame_def)

text \<open>
  Claim C7, as the code has it. Nothing keeps the frame lists sorted; the consumers
  sort by timestamp themselves. What holds of the four operations:
  removing a frame keeps a sorted list sorted;
  a manual capture appends the new frame at the end whatever its timestamp, so the
  list is sorted afterwards exactly when it was sorted before and no frame in it is
  later than the new one;
  the candidates of a scan that runs to its end are sorted when the player reports the
  positions it was sent to;
  and the list adopted from a selection result is sorted when the candidates are and
  the in-range indices of the result do not decrease.
\<close>

theorem frame_order_conditions:
  "(sorted (map timestamp (frames s))
      \<longrightarrow> sorted (map timestamp (frames (removeFrame r s))))
   \<and> (createFrameFromVideo c = Inr (Some f)
      \<longrightarrow> frames (captureFrame True c s) = frames s @ [f]
        \<and> sorted (map timestamp (frames (captureFrame True c s)))
            = (sorted (map timestamp (frames s)) \<and> (\<forall>g\<in>set (frames s). timestamp g \<le> timestamp f)))
   \<and> (0 \<le> d \<and> snd (scan_video env d s) = Inr candidates
        \<and> (\<forall>i\<in>{1..steps}.
              currentTime (snapshot env i (interval_of d * real i)) = interval_of d * real i)
      \<longrightarrow> sorted (map timestamp candidates))
   \<and> (sorted (map timestamp candidates)
        \<and> sorted (valid_indices (length candidates) selectedIndices)
      \<longrightarrow> sorted (map timestamp (finalFrames candidates selectedIndices)))"
proof (intro conjI impI)
  show "sorted (map timestamp (frames (removeFrame r s)))"
    if "sorted (map timestamp (frames s))"
    using that by (simp add: removeFrame_def sorted_map sorted_wrt_filter)
  show "frames (captureFrame True c s) = frames s @ [f]"
    if "createFrameFromVideo c = Inr (Some f)"
    using that by (rule captureFrame_appends)
  show "sorted (map timestamp (frames (captureFrame True c s)))
          = (sorted (map timestamp (frames s)) \<and> (\<forall>g\<in>set (frames s). timestamp g \<le> timestamp f))"
    if "createFrameFromVideo c = Inr (Some f)"
    by (simp add: captureFrame_appends [OF that] sorted_append)
  show "sorted (map timestamp candidates)"
    if h: "0 \<le> d \<and> snd (scan_video env d s) = Inr candidates
        \<and> (\<forall>i\<in>{1..steps}.
              currentTime (snapshot env i (interval_of d * real i)) = interval_of d * real i)"
  proof -
    have fin: "snd (scan_video env d s) = Inr candidates"
      using h by simp
    have "snd (scan_video env d s) = Inr (captured (snapshot env) (interval_of d) [1..<Suc steps])"
      by (rule scan_video_no_throw(1) [OF scan_video_completes [OF fin]])
    then have c: "candidates = captured (snapshot env) (interval_of d) [1..<Suc steps]"
      using h by simp
    have "sorted (map timestamp (captured (snapshot env) (interval_of d) [1..<Suc steps]))"
    proof (rule captured_ordered)
      show "0 \<le> interval_of d" using h by (simp add: interval_of_def)
      show "sorted [1..<Suc steps]" by (rule sorted_upt)
      show "\<forall>i\<in>set [1..<Suc steps].
              currentTime (snapshot env i (interval_of d * real i)) = interval_of d * real i"
        using h unfolding set_steps by simp
    qed
    then show ?thesis by (simp only: c)
  qed
  show "sorted (map timestamp (finalFrames candidates selectedIndices))"
    if "sorted (map timestamp candidates) \<and> sorted (valid_indices (length candidates) selectedIndices)"
    using that by (simp add: sorted_finalFrames)
qed

theorem frame_order_conditions_witness:
  "sorted (map timestamp (frames (removeFrame ''f2'' (idle\<lparr>frames := map demo_frame [1, 2, 3]\<rparr>))))
   \<and> sorted (map timestamp
              (frames (captureFrame True (demo_capture 7) (idle\<lparr>frames := map demo_frame [1, 2, 3]\<rparr>))))
   \<and> sorted (map timestamp (map demo_frame [1, 2, 3, 4, 6, 7, 8, 10, 11, 12]))
   \<and> sorted (map timestamp
              (finalFrames (map demo_frame [1, 2, 3, 4, 6, 7, 8, 10, 11, 12]) [0, 3, 3, 15, 9]))"
proof -
  let ?s = "idle\<lparr>frames := map demo_frame [1, 2, 3]\<rparr>"
  let ?E = "demo_env [5, 9] [] []"
  let ?cands = "map demo_frame [1, 2, 3, 4, 6, 7, 8, 10, 11, 12]"
  let ?f = "\<lparr>frame_id = ''manual'', dataUrl = demo_url 0, timestamp = 7,
             originalTimeFormatted = formatTime 7\<rparr>"
  note inst =
    frame_order_conditions [of ?s "''f2''" "demo_capture 7" ?f 26 ?E ?cands "[0, 3, 3, 15, 9]"]
  have s: "sorted (map timestamp (frames ?s))"
    by (simp add: demo_frame_def)
  have c: "createFrameFromVideo (demo_capture 7) = Inr (Some ?f)"
    by (simp add: createFrameFromVideo_def demo_capture_def)
  have later: "\<forall>g\<in>set (frames ?s). timestamp g \<le> timestamp ?f"
    by (simp add: demo_frame_def)
  have scan: "snd (scan_video ?E 26 ?s) = Inr ?cands"
    using demo_scan_two_skipped [of "[]"] scan_video_snd [of ?E 26 ?s idle] by simp
  have pos: "\<forall>i\<in>{1..steps}.
      currentTime (snapshot ?E i (interval_of 26 * real i)) = interval_of 26 * real i"
    by (simp add: demo_env_def)
  have removed: "sorted (map timestamp (frames (removeFrame ''f2'' ?s)))"
    using inst s by blast
  have appended: "sorted (map timestamp (frames (captureFrame True (demo_capture 7) ?s)))"
    using inst s c later by blast
  have scanned: "sorted (map timestamp ?cands)"
    using inst scan pos by simp
  have "sorted (valid_indices (length ?cands) [0, 3, 3, 15, 9])"
    by (simp add: valid_indices_def)
  then have adopted: "sorted (map timestamp (finalFrames ?cands [0, 3, 3, 15, 9]))"
    using inst scanned by blast
  show ?thesis
    using removed appended scanned adopted by (intro conjI)
qed

text \<open>
  A manual capture at position 4 after one at position 10 leaves the list out of
  order, and so does the adoption of the selection result \<open>[1, 0]\<close>.
\<close>

theorem frame_order_broken:
  "sorted (map timestamp (frames (idle\<lparr>frames := [demo_frame 5]\<rparr>)))
   \<and> \<not> sorted (map timestamp
                  (frames (captureFrame True (demo_capture 4) (idle\<lparr>frames := [demo_frame 5]\<rparr>))))
   \<and> sorted (map timestamp [demo_frame 1, demo_frame 2])
   \<and> \<not> sorted (map timestamp (finalFrames [demo_frame 1, demo_frame 2] [1, 0]))"
  by (simp add: captureFrame_def createFrameFromVideo_def demo_capture_def demo_frame_def
      finalFrames_def array_at_def)

section \<open>Handout generation\<close>

lemma generate_store:
  "store_after (generateHandoutContent svc h a) = h @ [sort_key timestamp (h ! a)]"
  by (simp add: generateHandoutContent_def array_sort_def array_spread_def Let_def)


lemma generate_outcome:
  "outcome (generateHandoutContent svc h a) =
     (case gen_generateContent svc (handout_request (sort_key timestamp (h ! a))) of
        Inl msg \<Rightarrow> Inl msg
      | Inr None \<Rightarrow> Inl ''No response from Gemini''
      | Inr (Some text) \<Rightarrow>
          (if text = [] then Inl ''No response from Gemini'' else JSON_parse svc text))"
  by (simp add: generateHandoutContent_def array_sort_def array_spread_def Let_def)

text \<open>Sorting an array in place is seen by whoever holds it; the function sorts a copy.\<close>

lemma array_sort_in_place:
  "snd (array_sort [[demo_frame 3, demo_frame 1, demo_frame 2]] 0) =
     [[demo_frame 1, demo_frame 2, demo_frame 3]]"
  by (simp add: array_sort_def demo_frame_def)

lemma generate_sorted_copy:
  "store_after (generateHandoutContent svc [[demo_frame 3, demo_frame 1, demo_frame 2]] 0) =
     [[demo_frame 3, demo_frame 1, demo_frame 2], [demo_frame 1, demo_frame 2, demo_frame 3]]"
  by (simp add: generate_store demo_frame_def)



text \<open>
  Claim C10. \<open>generateHandoutContent\<close> sorts a copy: after the call the array it was
  passed holds the same frames in the same order as before, and so does every other
  array that existed before the call.
\<close>

theorem generation_keeps_argument:
  assumes "a < length h"
  shows "store_after (generateHandoutContent svc h a) ! a = h ! a
       \<and> take (length h) (store_after (generateHandoutContent svc h a)) = h"
  using assms by (simp add: generate_store nth_append)

theorem generation_keeps_argument_witness:
  "(0::nat) < length [[demo_frame 3, demo_frame 1, demo_frame 2]]
   \<and> store_after (generateHandoutContent (demo_generation (Inr None))
                    [[demo_frame 3, demo_frame 1, demo_frame 2]] 0) ! 0 =
       [demo_frame 3, demo_frame 1, demo_frame 2]"
proof -
  let ?h = "[[demo_frame 3, demo_frame 1, demo_frame 2]]"
  have valid: "(0::nat) < length ?h"
    by simp
  show ?thesis
    using generation_keeps_argument [OF valid, of "demo_generation (Inr None)"] by simp
qed

text \<open>
  Claim C5, as the code has it. \<open>generateHandoutContent\<close> checks nothing of its own
  against the schema, which it only sends along with the request. It fails, with the
  error thrown again by its \<open>catch\<close> block, when the call fails, when the response has
  no text or an empty one ("No response from Gemini"), and when \<open>JSON.parse\<close> rejects
  the text; a text that \<open>JSON.parse\<close> accepts is returned as parsed, whatever it holds.
\<close>

theorem generation_returns_parsed_payload:
  assumes "req = handout_request (sort_key timestamp (h ! a))"
  shows "(\<forall>msg. gen_generateContent svc req = Inl msg
            \<longrightarrow> outcome (generateHandoutContent svc h a) = Inl msg)
       \<and> (gen_generateContent svc req = Inr None \<or> gen_generateContent svc req = Inr (Some [])
            \<longrightarrow> outcome (generateHandoutContent svc h a) = Inl ''No response from Gemini'')
       \<and> (\<forall>text. gen_generateContent svc req = Inr (Some text) \<and> text \<noteq> []
            \<longrightarrow> outcome (generateHandoutContent svc h a) = JSON_parse svc text)"
  unfolding generate_outcome assms by auto

theorem generation_returns_parsed_payload_witness:
  "outcome (generateHandoutContent (demo_generation (Inl ''Failed to fetch'')) [[demo_frame 1]] 0) =
     Inl ''Failed to fetch''
   \<and> outcome (generateHandoutContent (demo_generation (Inr None)) [[demo_frame 1]] 0) =
     Inl ''No response from Gemini''
   \<and> outcome (generateHandoutContent (demo_generation (Inr (Some ''{''))) [[demo_frame 1]] 0) =
     Inl ''SyntaxError''
   \<and> outcome (generateHandoutContent (demo_generation (Inr (Some ''{}''))) [[demo_frame 1]] 0) =
     Inr (JObject [])"
proof -
  let ?h = "[[demo_frame 1]]"
  let ?req = "handout_request (sort_key timestamp (?h ! 0))"
  have req: "?req = handout_request (sort_key timestamp (?h ! 0))"
    by (rule refl)
  have "gen_generateContent (demo_generation (Inl ''Failed to fetch'')) ?req = Inl ''Failed to fetch''"
    by (simp add: demo_generation_def)
  then have failed: "outcome (generateHandoutContent (demo_generation (Inl ''Failed to fetch'')) ?h 0) =
      Inl ''Failed to fetch''"
    using generation_returns_parsed_payload [OF req, of "demo_generation (Inl ''Failed to fetch'')"]
    by blast
  have "gen_generateContent (demo_generation (Inr None)) ?req = Inr None"
    by (simp add: demo_generation_def)
  then have missing: "outcome (generateHandoutContent (demo_generation (Inr None)) ?h 0) =
      Inl ''No response from Gemini''"
    using generation_returns_parsed_payload [OF req, of "demo_generation (Inr None)"]
    by blast
  have "gen_generateContent (demo_generation (Inr (Some ''{''))) ?req = Inr (Some ''{'')
      \<and> ''{'' \<noteq> []"
    by (simp add: demo_generation_def)
  then have "outcome (generateHandoutContent (demo_generation (Inr (Some ''{''))) ?h 0) =
      JSON_parse (demo_generation (Inr (Some ''{''))) ''{''"
    using generation_returns_parsed_payload [OF req, of "demo_generation (Inr (Some ''{''))"]
    by blast
  then have unparsable: "outcome (generateHandoutContent (demo_generation (Inr (Some ''{''))) ?h 0) =
      Inl ''SyntaxError''"
    by (simp add: demo_generation_def demo_parse_def)
  have "gen_generateContent (demo_generation (Inr (Some ''{}''))) ?req = Inr (Some ''{}'')
      \<and> ''{}'' \<noteq> []"
    by (simp add: demo_generation_def)
  then have "outcome (generateHandoutContent (demo_generation (Inr (Some ''{}''))) ?h 0) =
      JSON_parse (demo_generation (Inr (Some ''{}''))) ''{}''"
    using generation_returns_parsed_payload [OF req, of "demo_generation (Inr (Some ''{}''))"]
    by blast
  then have partial: "outcome (generateHandoutContent (demo_generation (Inr (Some ''{}''))) ?h 0) =
      Inr (JObject [])"
    by (simp add: demo_generation_def demo_parse_def)
  show ?thesis
    using failed missing unparsable partial by (intro conjI)
qed

text \<open>
  The payload \<open>{}\<close> parses, to an object with no title, no summary and no steps, and
  that object is what the function returns.
\<close>

theorem generation_returns_partial_document:
  "outcome (generateHandoutContent (demo_generation (Inr (Some ''{}''))) [[demo_frame 1]] 0) =
     Inr (JObject [])
   \<and> \<not> conforms HANDOUT_SCHEMA (JObject [])"
  by (simp add: generate_outcome demo_generation_def demo_parse_def HANDOUT_SCHEMA_def)

section \<open>Display\<close>








end
